theory Spec2Isabelle
  imports Complex_Main
begin

section \<open>The solar estimator of solar_app.py\<close>

text \<open>
  The program is one Streamlit script. Seven widgets deliver the inputs (lines 94-130),
  the block under the button computes seven numbers from them (lines 137-143), and the
  charts derive a gauge value (line 189), a list of years with the cumulative savings
  (lines 213-214) and twelve monthly outputs (lines 241-242).

  Numbers. The widgets for area, panel efficiency, system losses, installation cost and
  maintenance cost deliver Python ints, the two others Python floats, and every formula
  mixes them with true division. All of them are modelled as \<^typ>\<open>real\<close>: an int is an
  integral real, and the rounding of binary floating point is left out, so an equation
  about a run is an equation of the exact values. Where rounding decides, for the sum
  of the monthly outputs, lines 137-138 and 241-242 are modelled a second time in
  doubles (\<open>annual_output_double\<close>, \<open>monthly_output_double\<close>).
\<close>

subsection \<open>Input and result\<close>

record EstimatorInput =
  rooftopAreaM2 :: real
  irradianceKwhPerM2PerDay :: real
  tariffPerKwh :: real
  panelEfficiencyPct :: real
  systemLossesPct :: real
  installationCostPerKw :: real
  annualMaintenanceCost :: real

record EstimatorResult =
  performanceRatio :: real
  annualOutputKwh :: real
  annualSavings :: real
  totalSystemCost :: real
  netAnnualSavings :: real
  paybackYears :: real
  co2ReductionKg :: real
  monthlyOutputKwh :: "real list"
  cumulativeSavingsByYear :: "real list"

text \<open>The ranges are the \<open>min_value\<close> and \<open>max_value\<close> of the seven widgets.\<close>

definition valid_input :: "EstimatorInput \<Rightarrow> bool" where
  "valid_input i \<longleftrightarrow>
     10 \<le> rooftopAreaM2 i \<and> rooftopAreaM2 i \<le> 1000 \<and>
     3 \<le> irradianceKwhPerM2PerDay i \<and> irradianceKwhPerM2PerDay i \<le> 7 \<and>
     3 \<le> tariffPerKwh i \<and> tariffPerKwh i \<le> 15 \<and>
     15 \<le> panelEfficiencyPct i \<and> panelEfficiencyPct i \<le> 25 \<and>
     10 \<le> systemLossesPct i \<and> systemLossesPct i \<le> 25 \<and>
     40000 \<le> installationCostPerKw i \<and> installationCostPerKw i \<le> 80000 \<and>
     2000 \<le> annualMaintenanceCost i \<and> annualMaintenanceCost i \<le> 8000"

subsection \<open>The variables of the script\<close>

text \<open>
  The script keeps its numbers in module-level variables. The record holds the seven
  that the widgets assign and the seven that the calculation block assigns; a statement
  is a function from the variables before it to the variables after it.
\<close>

record namespace =
  area :: real
  irradiance :: real
  tariff :: real
  panel_efficiency :: real
  system_losses :: real
  installation_cost :: real
  maintenance_cost :: real
  performance_ratio :: real
  annual_output :: real
  annual_savings :: real
  total_system_cost :: real
  net_annual_savings :: real
  payback :: real
  co2_reduction :: real

text \<open>Lines 94-130: each widget call assigns its variable.\<close>

definition widgets :: "EstimatorInput \<Rightarrow> namespace \<Rightarrow> namespace" where
  "widgets i e =
     e\<lparr>area := rooftopAreaM2 i,
       irradiance := irradianceKwhPerM2PerDay i,
       tariff := tariffPerKwh i,
       panel_efficiency := panelEfficiencyPct i,
       system_losses := systemLossesPct i,
       installation_cost := installationCostPerKw i,
       maintenance_cost := annualMaintenanceCost i\<rparr>"

text \<open>
  True division raises ZeroDivisionError on a zero divisor. The divisions by the
  literals 100, 20, 1000 and 12 cannot raise and are written with \<open>/\<close>; the two
  divisions by a variable go through \<open>truediv\<close>.
\<close>

datatype error = ZeroDivisionError

definition truediv :: "real \<Rightarrow> real \<Rightarrow> error + real" where
  "truediv x y = (if y = 0 then Inl ZeroDivisionError else Inr (x / y))"

text \<open>
  Lines 137-143, one assignment after the other. The conditional expression of line 142
  evaluates its division only when the test holds, and yields the int 0 otherwise.
\<close>

definition calculation_block :: "namespace \<Rightarrow> error + namespace" where
  "calculation_block e0 =
     (let e1 = e0\<lparr>performance_ratio := (100 - system_losses e0) / 100\<rparr>;
          e2 = e1\<lparr>annual_output :=
                 area e1 * irradiance e1 * 365 * performance_ratio e1 * (panel_efficiency e1 / 20)\<rparr>;
          e3 = e2\<lparr>annual_savings := annual_output e2 * tariff e2\<rparr>;
          e4 = e3\<lparr>total_system_cost := (annual_output e3 / 1000) * installation_cost e3\<rparr>;
          e5 = e4\<lparr>net_annual_savings := annual_savings e4 - maintenance_cost e4\<rparr>
      in case (if net_annual_savings e5 > 0
               then truediv (total_system_cost e5) (net_annual_savings e5)
               else Inr 0) of
           Inl err \<Rightarrow> Inl err
         | Inr v \<Rightarrow>
             (let e6 = e5\<lparr>payback := v\<rparr>;
                  e7 = e6\<lparr>co2_reduction := annual_output e6 * 0.82\<rparr>
              in Inr e7))"

text \<open>Line 189, the value of the gauge.\<close>

definition potential_score :: "namespace \<Rightarrow> error + real" where
  "potential_score e =
     (case truediv (annual_output e) (area e) of
        Inl err \<Rightarrow> Inl err
      | Inr q \<Rightarrow> Inr (min 100 (q * 10)))"

text \<open>Python's \<open>int\<close> of a number truncates towards zero; \<open>range(a, b)\<close> stops before \<open>b\<close>.\<close>

definition py_int :: "real \<Rightarrow> int" where
  "py_int x = (if 0 \<le> x then \<lfloor>x\<rfloor> else \<lceil>x\<rceil>)"

definition py_range :: "int \<Rightarrow> int \<Rightarrow> int list" where
  "py_range a b = [a..b - 1]"

text \<open>Lines 213-214.\<close>

definition years :: "namespace \<Rightarrow> int list" where
  "years e = py_range 1 (py_int (payback e) + 5)"

definition cumulative_savings :: "namespace \<Rightarrow> real list" where
  "cumulative_savings e =
     map (\<lambda>year. of_int year * net_annual_savings e - total_system_cost e) (years e)"

text \<open>Lines 241-242, on exact values; \<open>monthly_output_double\<close> below has the doubles.\<close>

definition seasonal_variation :: "real list" where
  "seasonal_variation = [0.8, 0.9, 1.1, 1.2, 1.3, 1.2, 1.1, 1.1, 1.0, 0.9, 0.8, 0.7]"

definition monthly_output :: "namespace \<Rightarrow> real list" where
  "monthly_output e = map (\<lambda>var. annual_output e / 12 * var) seasonal_variation"

subsection \<open>One run of the script\<close>

text \<open>
  A run starts from the variables \<open>h\<close> that are there already, lets the widgets assign
  the inputs and executes the calculation block. The gauge of line 189 is drawn next, so
  its division comes before the lists of lines 213-214 and 241-242 are built: when it
  raises, the run ends there and there is no result. Otherwise the result is read off
  the variables.
\<close>

definition estimate_from :: "namespace \<Rightarrow> EstimatorInput \<Rightarrow> error + EstimatorResult" where
  "estimate_from h i =
     (case calculation_block (widgets i h) of
        Inl err \<Rightarrow> Inl err
      | Inr e \<Rightarrow>
          (case potential_score e of
             Inl err \<Rightarrow> Inl err
           | Inr gauge \<Rightarrow>
               Inr \<lparr>performanceRatio = performance_ratio e,
                    annualOutputKwh = annual_output e,
                    annualSavings = annual_savings e,
                    totalSystemCost = total_system_cost e,
                    netAnnualSavings = net_annual_savings e,
                    paybackYears = payback e,
                    co2ReductionKg = co2_reduction e,
                    monthlyOutputKwh = monthly_output e,
                    cumulativeSavingsByYear = cumulative_savings e\<rparr>))"

definition score_from :: "namespace \<Rightarrow> EstimatorInput \<Rightarrow> error + real" where
  "score_from h i =
     (case calculation_block (widgets i h) of
        Inl err \<Rightarrow> Inl err
      | Inr e \<Rightarrow> potential_score e)"

text \<open>
  A first run finds no variable assigned. The record needs a value in every field, so
  the fresh namespace holds zeros.
\<close>

definition fresh :: namespace where
  "fresh =
     \<lparr>area = 0, irradiance = 0, tariff = 0, panel_efficiency = 0, system_losses = 0,
      installation_cost = 0, maintenance_cost = 0, performance_ratio = 0, annual_output = 0,
      annual_savings = 0, total_system_cost = 0, net_annual_savings = 0, payback = 0,
      co2_reduction = 0\<rparr>"

definition estimate :: "EstimatorInput \<Rightarrow> error + EstimatorResult" where
  "estimate i = estimate_from fresh i"

definition score :: "EstimatorInput \<Rightarrow> error + real" where
  "score i = score_from fresh i"

text \<open>The inputs of the spec's two scenarios; the second has a tariff below its range.\<close>

definition scenario_1 :: EstimatorInput where
  "scenario_1 =
     \<lparr>rooftopAreaM2 = 100, irradianceKwhPerM2PerDay = 5.5, tariffPerKwh = 6.5,
      panelEfficiencyPct = 20, systemLossesPct = 15, installationCostPerKw = 65000,
      annualMaintenanceCost = 4000\<rparr>"

definition scenario_2 :: EstimatorInput where
  "scenario_2 = scenario_1\<lparr>tariffPerKwh := 0.01\<rparr>"

text \<open>
  The spec states some expected values to two decimals. \<open>approx x y\<close> says that
  \<open>x\<close> is \<open>y\<close> to the decimals written: they differ by at most half a unit of the
  second decimal.
\<close>

definition approx :: "real \<Rightarrow> real \<Rightarrow> bool" where
  "approx x y \<longleftrightarrow> \<bar>x - y\<bar> \<le> 0.005"

subsection \<open>Double precision\<close>

text \<open>
  A Python float is an IEEE 754 double: a number \<open>m * 2^k\<close> with \<open>|m| < 2^53\<close>. An
  operation on floats returns the double nearest to the exact result, and of two
  equally near ones the one with even \<open>m\<close>. The range of the exponent is not modelled:
  there is no overflow and there are no subnormal numbers. The numbers of lines 137-138
  and 241-242 are far from both: for inputs within the ranges they lie between 1/2 and
  2^22.

  \<open>bit_length\<close> is that of Python's ints; \<open>exponent x\<close> is the \<open>k\<close> with
  \<open>2^k \<le> |x| < 2^(k+1)\<close>.
\<close>

fun bit_length :: "nat \<Rightarrow> nat" where
  "bit_length n = (if n = 0 then 0 else Suc (bit_length (n div 2)))"

declare bit_length.simps [simp del]

definition exponent :: "real \<Rightarrow> int" where
  "exponent x =
     (if 1 \<le> \<bar>x\<bar> then int (bit_length (nat \<lfloor>\<bar>x\<bar>\<rfloor>)) - 1
      else - int (bit_length (nat (\<lceil>1 / \<bar>x\<bar>\<rceil> - 1))))"

definition round_half_even :: "real \<Rightarrow> int" where
  "round_half_even x =
     (let f = \<lfloor>x\<rfloor>; d = x - of_int f
      in if d < 1 / 2 then f else if 1 / 2 < d then f + 1 else if even f then f else f + 1)"

definition double :: "real \<Rightarrow> real" where
  "double x =
     (if x = 0 then 0
      else (let ulp = 2 powi (exponent x - 52)
            in of_int (round_half_even (x / ulp)) * ulp))"

definition unit_roundoff :: real where
  "unit_roundoff = 1 / 2 ^ 53"

definition fadd :: "real \<Rightarrow> real \<Rightarrow> real" where
  "fadd x y = double (x + y)"

definition fmul :: "real \<Rightarrow> real \<Rightarrow> real" where
  "fmul x y = double (x * y)"

definition fdiv :: "real \<Rightarrow> real \<Rightarrow> real" where
  "fdiv x y = double (x / y)"

text \<open>
  Adding floats as the loop \<open>s = 0; for x in xs: s += x\<close> does: from the left, each
  addition rounded.
\<close>

definition sum_double :: "real list \<Rightarrow> real" where
  "sum_double xs = foldl fadd 0 xs"

text \<open>
  Lines 137-138 and 241-242 in doubles. \<open>100 - system_losses\<close> subtracts Python ints
  and is exact; a division of two ints and a product of an int and a float round once;
  a float literal is the double nearest to its decimal.
\<close>

definition performance_ratio_double :: "EstimatorInput \<Rightarrow> real" where
  "performance_ratio_double i = fdiv (100 - systemLossesPct i) 100"

definition annual_output_double :: "EstimatorInput \<Rightarrow> real" where
  "annual_output_double i =
     fmul (fmul (fmul (fmul (rooftopAreaM2 i) (irradianceKwhPerM2PerDay i)) 365)
             (performance_ratio_double i))
       (fdiv (panelEfficiencyPct i) 20)"

definition seasonal_variation_double :: "real list" where
  "seasonal_variation_double = map double seasonal_variation"

definition monthly_output_double :: "EstimatorInput \<Rightarrow> real list" where
  "monthly_output_double i =
     map (\<lambda>var. fmul (fdiv (annual_output_double i) 12) var) seasonal_variation_double"

text \<open>An input on the grid of the widgets: the smallest area and irradiance.\<close>

definition scenario_3 :: EstimatorInput where
  "scenario_3 =
     \<lparr>rooftopAreaM2 = 10, irradianceKwhPerM2PerDay = 3, tariffPerKwh = 6.5,
      panelEfficiencyPct = 22, systemLossesPct = 20, installationCostPerKw = 65000,
      annualMaintenanceCost = 4000\<rparr>"

section \<open>What a run computes\<close>

text \<open>
  The block never raises, and each variable it assigns is a formula of the seven inputs.
  A run returns a result unless the area is zero, where the gauge raises.
\<close>

lemma calculation_block_returns:
  "\<exists>e'. calculation_block e = Inr e' \<and>
     area e' = area e \<and> irradiance e' = irradiance e \<and> tariff e' = tariff e \<and>
     panel_efficiency e' = panel_efficiency e \<and> system_losses e' = system_losses e \<and>
     installation_cost e' = installation_cost e \<and> maintenance_cost e' = maintenance_cost e \<and>
     performance_ratio e' = (100 - system_losses e) / 100 \<and>
     annual_output e' =
       area e * irradiance e * 365 * ((100 - system_losses e) / 100) * (panel_efficiency e / 20) \<and>
     annual_savings e' = annual_output e' * tariff e \<and>
     total_system_cost e' = annual_output e' / 1000 * installation_cost e \<and>
     net_annual_savings e' = annual_savings e' - maintenance_cost e \<and>
     payback e' =
       (if 0 < net_annual_savings e' then total_system_cost e' / net_annual_savings e' else 0) \<and>
     co2_reduction e' = annual_output e' * 0.82"
  by (simp add: calculation_block_def truediv_def Let_def)

lemma widgets_assigns:
  "area (widgets i h) = rooftopAreaM2 i"
  "irradiance (widgets i h) = irradianceKwhPerM2PerDay i"
  "tariff (widgets i h) = tariffPerKwh i"
  "panel_efficiency (widgets i h) = panelEfficiencyPct i"
  "system_losses (widgets i h) = systemLossesPct i"
  "installation_cost (widgets i h) = installationCostPerKw i"
  "maintenance_cost (widgets i h) = annualMaintenanceCost i"
  by (simp_all add: widgets_def)

lemma estimate_from_returns:
  assumes "rooftopAreaM2 i \<noteq> 0"
  shows "\<exists>r. estimate_from h i = Inr r \<and>
     performanceRatio r = (100 - systemLossesPct i) / 100 \<and>
     annualOutputKwh r =
       rooftopAreaM2 i * irradianceKwhPerM2PerDay i * 365 * ((100 - systemLossesPct i) / 100) *
       (panelEfficiencyPct i / 20) \<and>
     annualSavings r = annualOutputKwh r * tariffPerKwh i \<and>
     totalSystemCost r = annualOutputKwh r / 1000 * installationCostPerKw i \<and>
     netAnnualSavings r = annualSavings r - annualMaintenanceCost i \<and>
     paybackYears r =
       (if 0 < netAnnualSavings r then totalSystemCost r / netAnnualSavings r else 0) \<and>
     co2ReductionKg r = annualOutputKwh r * 0.82 \<and>
     monthlyOutputKwh r = map (\<lambda>var. annualOutputKwh r / 12 * var) seasonal_variation \<and>
     cumulativeSavingsByYear r =
       map (\<lambda>year. of_int year * netAnnualSavings r - totalSystemCost r)
         (py_range 1 (py_int (paybackYears r) + 5))"
proof -
  obtain e where e: "calculation_block (widgets i h) = Inr e"
    and "area e = area (widgets i h)"
    and "performance_ratio e = (100 - system_losses (widgets i h)) / 100"
    and "annual_output e =
       area (widgets i h) * irradiance (widgets i h) * 365 *
       ((100 - system_losses (widgets i h)) / 100) * (panel_efficiency (widgets i h) / 20)"
    and "annual_savings e = annual_output e * tariff (widgets i h)"
    and "total_system_cost e = annual_output e / 1000 * installation_cost (widgets i h)"
    and "net_annual_savings e = annual_savings e - maintenance_cost (widgets i h)"
    and "payback e =
       (if 0 < net_annual_savings e then total_system_cost e / net_annual_savings e else 0)"
    and "co2_reduction e = annual_output e * 0.82"
    using calculation_block_returns [of "widgets i h"] by blast
  then show ?thesis
    using assms
    by (simp add: estimate_from_def potential_score_def truediv_def widgets_assigns
        monthly_output_def cumulative_savings_def years_def)
qed

lemma estimate_from_area_zero:
  assumes "rooftopAreaM2 i = 0"
  shows "estimate_from h i = Inl ZeroDivisionError"
proof -
  obtain e where "calculation_block (widgets i h) = Inr e"
    and "area e = area (widgets i h)"
    using calculation_block_returns [of "widgets i h"] by blast
  then show ?thesis
    using assms
    by (simp add: estimate_from_def potential_score_def truediv_def widgets_assigns)
qed

lemma valid_area: "valid_input i \<Longrightarrow> rooftopAreaM2 i \<noteq> 0"
  by (simp add: valid_input_def)

lemma output_lower:
  fixes A I L P :: real
  assumes "0 \<le> A" "3 \<le> I" "L \<le> 25" "15 \<le> P"
  shows "A * (9855 / 16) \<le> A * I * 365 * ((100 - L) / 100) * (P / 20)"
proof -
  have 1: "A * 3 \<le> A * I" using assms by (simp add: mult_left_mono)
  have 2: "A * 3 * 365 \<le> A * I * 365" using 1 by simp
  have 3: "3 / 4 \<le> (100 - L) / 100" using assms by simp
  have 4: "3 / 4 \<le> P / 20" using assms by simp
  have 5: "0 \<le> A * I * 365" using 2 assms by linarith
  have 6: "A * 3 * 365 * (3 / 4) \<le> A * I * 365 * ((100 - L) / 100)"
    by (rule mult_mono [OF 2 3 5]) simp
  have 7: "0 \<le> A * I * 365 * ((100 - L) / 100)" using 6 assms by linarith
  have "A * 3 * 365 * (3 / 4) * (3 / 4) \<le> A * I * 365 * ((100 - L) / 100) * (P / 20)"
    by (rule mult_mono [OF 6 4 7]) simp
  then show ?thesis by simp
qed

lemma estimate_returns:
  assumes "rooftopAreaM2 i \<noteq> 0"
  shows "\<exists>r. estimate i = Inr r \<and>
     performanceRatio r = (100 - systemLossesPct i) / 100 \<and>
     annualOutputKwh r =
       rooftopAreaM2 i * irradianceKwhPerM2PerDay i * 365 * ((100 - systemLossesPct i) / 100) *
       (panelEfficiencyPct i / 20) \<and>
     annualSavings r = annualOutputKwh r * tariffPerKwh i \<and>
     totalSystemCost r = annualOutputKwh r / 1000 * installationCostPerKw i \<and>
     netAnnualSavings r = annualSavings r - annualMaintenanceCost i \<and>
     paybackYears r =
       (if 0 < netAnnualSavings r then totalSystemCost r / netAnnualSavings r else 0) \<and>
     co2ReductionKg r = annualOutputKwh r * 0.82 \<and>
     monthlyOutputKwh r = map (\<lambda>var. annualOutputKwh r / 12 * var) seasonal_variation \<and>
     cumulativeSavingsByYear r =
       map (\<lambda>year. of_int year * netAnnualSavings r - totalSystemCost r)
         (py_range 1 (py_int (paybackYears r) + 5))"
  unfolding estimate_def using assms by (rule estimate_from_returns)

text \<open>
  Within the ranges of the widgets the output is at least 615.9375 kWh per square metre,
  the net savings are positive and stay below the system cost, so the payback exceeds
  one year.
\<close>

lemma net_positive:
  fixes ao t m :: real
  assumes "6159 \<le> ao" "3 \<le> t" "m \<le> 8000"
  shows "0 < ao * t - m"
proof -
  have "ao * 3 \<le> ao * t" using assms by (simp add: mult_left_mono)
  then show ?thesis using assms by linarith
qed

lemma net_below_cost:
  fixes ao t ic m :: real
  assumes "0 < ao" "t \<le> 15" "40000 \<le> ic" "0 \<le> m"
  shows "2 * (ao * t - m) < ao / 1000 * ic"
proof -
  have 1: "ao * t \<le> ao * 15" using assms by (simp add: mult_left_mono)
  have "ao / 1000 * 40000 \<le> ao / 1000 * ic" using assms by (simp add: mult_left_mono)
  then have 2: "ao * 40 \<le> ao / 1000 * ic" by simp
  have "ao * t - m \<le> ao * 15" using 1 assms(4) by linarith
  then have "2 * (ao * t - m) \<le> ao * 30" by simp
  also have "\<dots> < ao * 40" using assms(1) by simp
  also note 2
  finally show ?thesis .
qed

lemma valid_run:
  assumes v: "valid_input i" and r: "estimate i = Inr r"
  shows "rooftopAreaM2 i * (9855 / 16) \<le> annualOutputKwh r"
    and "0 < netAnnualSavings r"
    and "netAnnualSavings r < totalSystemCost r"
    and "paybackYears r = totalSystemCost r / netAnnualSavings r"
    and "1 < paybackYears r"
    and "2 < paybackYears r"
proof -
  from estimate_returns [OF valid_area [OF v]] r
  have ao: "annualOutputKwh r =
       rooftopAreaM2 i * irradianceKwhPerM2PerDay i * 365 * ((100 - systemLossesPct i) / 100) *
       (panelEfficiencyPct i / 20)"
    and sav: "annualSavings r = annualOutputKwh r * tariffPerKwh i"
    and cost: "totalSystemCost r = annualOutputKwh r / 1000 * installationCostPerKw i"
    and net: "netAnnualSavings r = annualSavings r - annualMaintenanceCost i"
    and pay: "paybackYears r =
       (if 0 < netAnnualSavings r then totalSystemCost r / netAnnualSavings r else 0)"
    by auto
  show lower: "rooftopAreaM2 i * (9855 / 16) \<le> annualOutputKwh r"
    unfolding ao using v by (intro output_lower) (simp_all add: valid_input_def)
  have "10 * (9855 / 16) \<le> rooftopAreaM2 i * (9855 / 16)"
    using v by (simp add: valid_input_def)
  then have big: "6159 \<le> annualOutputKwh r" using lower by simp
  show pos: "0 < netAnnualSavings r"
    unfolding net sav using big v by (intro net_positive) (simp_all add: valid_input_def)
  have twice: "2 * netAnnualSavings r < totalSystemCost r"
    unfolding net sav cost using big v by (intro net_below_cost) (simp_all add: valid_input_def)
  then show "netAnnualSavings r < totalSystemCost r" using pos by linarith
  show quot: "paybackYears r = totalSystemCost r / netAnnualSavings r"
    using pay pos by simp
  show "2 < paybackYears r" unfolding quot using pos twice by (simp add: pos_less_divide_eq)
  then show "1 < paybackYears r" by linarith
qed

lemma upto_from_1: "[1..numeral n] = 1 # [2..numeral n]"
  by (simp add: upto_rec1)

lemma valid_years:
  assumes v: "valid_input i" and r: "estimate i = Inr r"
  shows "py_range 1 (py_int (paybackYears r) + 5) = [1..\<lfloor>paybackYears r\<rfloor> + 4]"
    and "1 \<le> \<lfloor>paybackYears r\<rfloor>"
proof -
  have "1 < paybackYears r" using valid_run(5) [OF v r] .
  then show "py_range 1 (py_int (paybackYears r) + 5) = [1..\<lfloor>paybackYears r\<rfloor> + 4]"
    and "1 \<le> \<lfloor>paybackYears r\<rfloor>"
    by (simp_all add: py_range_def py_int_def le_floor_iff add.commute)
qed

text \<open>Within the ranges the list of years is \<open>1, ..., floor(payback) + 4\<close>.\<close>

lemma cumulative_savings_valid:
  assumes v: "valid_input i" and r: "estimate i = Inr r"
  shows "cumulativeSavingsByYear r =
     map (\<lambda>year. of_int year * netAnnualSavings r - totalSystemCost r)
       [1..\<lfloor>paybackYears r\<rfloor> + 4]"
proof -
  have "cumulativeSavingsByYear r =
       map (\<lambda>year. of_int year * netAnnualSavings r - totalSystemCost r)
         (py_range 1 (py_int (paybackYears r) + 5))"
    using estimate_returns [OF valid_area [OF v]] r by auto
  then show ?thesis by (simp only: valid_years(1) [OF v r])
qed

text \<open>
  The output is a product of positive factors within the ranges, so it grows strictly
  when one of area, irradiance and efficiency grows and the others do not shrink.
\<close>

lemma output_strict_mono:
  fixes A I L P A' I' P' :: real
  assumes "0 < A" "0 < I" "L < 100" "0 < P"
    and "A \<le> A'" "I \<le> I'" "P \<le> P'" and "A < A' \<or> I < I' \<or> P < P'"
  shows "A * I * 365 * ((100 - L) / 100) * (P / 20) <
         A' * I' * 365 * ((100 - L) / 100) * (P' / 20)"
proof -
  define c where "c = 365 * ((100 - L) / 100) / 20"
  have c: "0 < c" using assms by (simp add: c_def)
  have "A * I * P < A' * I' * P'"
  proof -
    have le: "A * I \<le> A' * I'" using assms by (intro mult_mono) simp_all
    have "0 < A * I" using assms by simp
    then have pos: "0 < A' * I'" using le by linarith
    from assms(8) consider (area) "A < A'" | (irradiance) "I < I'" | (efficiency) "P < P'"
      by blast
    then show ?thesis
    proof cases
      case area
      then have "A * I < A' * I'" using assms by (intro mult_less_le_imp_less) simp_all
      then have "A * I * P < A' * I' * P" using assms by (simp add: mult_strict_right_mono)
      also have "\<dots> \<le> A' * I' * P'" using pos assms by (simp add: mult_left_mono)
      finally show ?thesis .
    next
      case irradiance
      then have "A * I < A' * I'" using assms by (intro mult_le_less_imp_less) simp_all
      then have "A * I * P < A' * I' * P" using assms by (simp add: mult_strict_right_mono)
      also have "\<dots> \<le> A' * I' * P'" using pos assms by (simp add: mult_left_mono)
      finally show ?thesis .
    next
      case efficiency
      have "A * I * P \<le> A' * I' * P" using le assms by (simp add: mult_right_mono)
      also have "\<dots> < A' * I' * P'" using efficiency pos by (rule mult_strict_left_mono)
      finally show ?thesis .
    qed
  qed
  then have "A * I * P * c < A' * I' * P' * c" using c by (simp add: mult_strict_right_mono)
  moreover have "A * I * 365 * ((100 - L) / 100) * (P / 20) = A * I * P * c"
    and "A' * I' * 365 * ((100 - L) / 100) * (P' / 20) = A' * I' * P' * c"
    by (simp_all add: c_def)
  ultimately show ?thesis by (simp only:)
qed

lemma output_increases:
  assumes v: "valid_input i" and v': "valid_input i'"
    and same: "systemLossesPct i' = systemLossesPct i"
    and le: "rooftopAreaM2 i \<le> rooftopAreaM2 i'"
      "irradianceKwhPerM2PerDay i \<le> irradianceKwhPerM2PerDay i'"
      "panelEfficiencyPct i \<le> panelEfficiencyPct i'"
    and less: "rooftopAreaM2 i < rooftopAreaM2 i' \<or>
      irradianceKwhPerM2PerDay i < irradianceKwhPerM2PerDay i' \<or>
      panelEfficiencyPct i < panelEfficiencyPct i'"
  shows "\<exists>r r'. estimate i = Inr r \<and> estimate i' = Inr r' \<and>
           annualOutputKwh r < annualOutputKwh r'"
proof -
  obtain r where r: "estimate i = Inr r"
    and ao: "annualOutputKwh r =
       rooftopAreaM2 i * irradianceKwhPerM2PerDay i * 365 * ((100 - systemLossesPct i) / 100) *
       (panelEfficiencyPct i / 20)"
    using estimate_returns [OF valid_area [OF v]] by blast
  obtain r' where r': "estimate i' = Inr r'"
    and ao': "annualOutputKwh r' =
       rooftopAreaM2 i' * irradianceKwhPerM2PerDay i' * 365 *
       ((100 - systemLossesPct i') / 100) * (panelEfficiencyPct i' / 20)"
    using estimate_returns [OF valid_area [OF v']] by blast
  have pos: "0 < rooftopAreaM2 i" "0 < irradianceKwhPerM2PerDay i" "systemLossesPct i < 100"
    "0 < panelEfficiencyPct i"
    using v by (simp_all add: valid_input_def)
  have "annualOutputKwh r < annualOutputKwh r'"
    unfolding ao ao' same using pos le less by (rule output_strict_mono)
  with r r' show ?thesis by blast
qed

section \<open>Doubles\<close>

text \<open>
  Numerals evaluate \<open>bit_length\<close>; rounding to a double moves a number by at most the
  fraction \<open>unit_roundoff\<close> of itself.
\<close>

lemma bit_length_numeral:
  "bit_length 0 = 0"
  "bit_length (Suc 0) = 1"
  "bit_length 1 = 1"
  "bit_length (numeral Num.One) = 1"
  "bit_length (numeral (Num.Bit0 n)) = Suc (bit_length (numeral n))"
  "bit_length (numeral (Num.Bit1 n)) = Suc (bit_length (numeral n))"
  by (simp_all add: bit_length.simps [of 0] bit_length.simps [of 1]
      bit_length.simps [of "numeral (Num.Bit0 n)"] bit_length.simps [of "numeral (Num.Bit1 n)"]
      bit_length.simps [of "Suc 0"])

lemma bit_length_bounds:
  "0 < n \<Longrightarrow> 2 ^ (bit_length n - 1) \<le> n \<and> n < 2 ^ bit_length n"
proof (induction n rule: bit_length.induct)
  case (1 n)
  show ?case
  proof (cases "n div 2 = 0")
    case True
    with "1.prems" have "n = 1" by (simp add: div_eq_0_iff)
    then show ?thesis by (simp add: bit_length_numeral)
  next
    case False
    then have pos: "0 < n div 2" by simp
    with "1.IH" "1.prems"
    have ih: "2 ^ (bit_length (n div 2) - 1) \<le> n div 2" "n div 2 < 2 ^ bit_length (n div 2)"
      by simp_all
    have bl: "bit_length n = Suc (bit_length (n div 2))"
      using "1.prems" by (simp add: bit_length.simps [of n])
    have nz: "bit_length (n div 2) \<noteq> 0"
      using pos by (simp add: bit_length.simps [of "n div 2"])
    then have "2 ^ (bit_length n - 1) = 2 * 2 ^ (bit_length (n div 2) - 1)"
      unfolding bl by (cases "bit_length (n div 2)") simp_all
    also have "\<dots> \<le> 2 * (n div 2)" using ih(1) by simp
    also have "\<dots> \<le> n" by simp
    finally have lo: "2 ^ (bit_length n - 1) \<le> n" .
    have "n < 2 * (n div 2) + 2" by linarith
    also have "\<dots> \<le> 2 * 2 ^ bit_length (n div 2)" using ih(2) by simp
    finally have "n < 2 ^ bit_length n" unfolding bl by simp
    with lo show ?thesis by simp
  qed
qed

lemma exponent_lower:
  assumes "x \<noteq> 0"
  shows "2 powi exponent x \<le> \<bar>x\<bar>"
proof (cases "1 \<le> \<bar>x\<bar>")
  case True
  define n where "n = nat \<lfloor>\<bar>x\<bar>\<rfloor>"
  have n: "0 < n" "real n \<le> \<bar>x\<bar>" using True by (simp_all add: n_def)
  have bl: "0 < bit_length n" using n(1) by (simp add: bit_length.simps [of n])
  have "exponent x = int (bit_length n - 1)"
    using True bl by (simp add: exponent_def n_def)
  then have "2 powi exponent x = (2::real) ^ (bit_length n - 1)" by simp
  also have "\<dots> \<le> real n"
  proof -
    have "2 ^ (bit_length n - 1) \<le> n" using bit_length_bounds [OF n(1)] by simp
    then have "real (2 ^ (bit_length n - 1)) \<le> real n" by (simp only: of_nat_le_iff)
    then show ?thesis by simp
  qed
  finally show ?thesis using n(2) by linarith
next
  case False
  define n where "n = nat (\<lceil>1 / \<bar>x\<bar>\<rceil> - 1)"
  have ax: "0 < \<bar>x\<bar>" "\<bar>x\<bar> < 1" using assms False by simp_all
  then have "1 < 1 / \<bar>x\<bar>" by simp
  then have c: "2 \<le> \<lceil>1 / \<bar>x\<bar>\<rceil>" by linarith
  then have n: "0 < n" "1 / \<bar>x\<bar> \<le> real n + 1"
    unfolding n_def by (simp, linarith)
  have "Suc n \<le> 2 ^ bit_length n" using bit_length_bounds [OF n(1)] by simp
  then have "real (Suc n) \<le> real (2 ^ bit_length n)" by (simp only: of_nat_le_iff)
  then have "real n + 1 \<le> 2 ^ bit_length n" by simp
  with n(2) have "1 / \<bar>x\<bar> \<le> 2 ^ bit_length n" by linarith
  then have "1 / 2 ^ bit_length n \<le> \<bar>x\<bar>"
    using ax(1) by (simp add: field_simps)
  moreover have "exponent x = - int (bit_length n)"
    using False by (simp add: exponent_def n_def)
  then have "2 powi exponent x = 1 / (2::real) ^ bit_length n"
    by (simp add: power_int_minus field_simps)
  ultimately show ?thesis by simp
qed

lemma exponent_upper:
  assumes "x \<noteq> 0"
  shows "\<bar>x\<bar> < 2 powi (exponent x + 1)"
proof (cases "1 \<le> \<bar>x\<bar>")
  case True
  define n where "n = nat \<lfloor>\<bar>x\<bar>\<rfloor>"
  have n: "0 < n" "\<bar>x\<bar> < real n + 1" using True by (simp_all add: n_def)
  have "Suc n \<le> 2 ^ bit_length n" using bit_length_bounds [OF n(1)] by simp
  then have "real (Suc n) \<le> real (2 ^ bit_length n)" by (simp only: of_nat_le_iff)
  then have "real n + 1 \<le> 2 ^ bit_length n" by simp
  moreover have "exponent x + 1 = int (bit_length n)"
    using True by (simp add: exponent_def n_def)
  then have "2 powi (exponent x + 1) = (2::real) ^ bit_length n" by simp
  ultimately show ?thesis using n(2) by linarith
next
  case False
  define n where "n = nat (\<lceil>1 / \<bar>x\<bar>\<rceil> - 1)"
  have ax: "0 < \<bar>x\<bar>" "\<bar>x\<bar> < 1" using assms False by simp_all
  then have "1 < 1 / \<bar>x\<bar>" by simp
  then have c: "2 \<le> \<lceil>1 / \<bar>x\<bar>\<rceil>" by linarith
  then have n: "0 < n" "real n < 1 / \<bar>x\<bar>"
    unfolding n_def by (simp, linarith)
  have bl: "0 < bit_length n" using n(1) by (simp add: bit_length.simps [of n])
  have "2 ^ (bit_length n - 1) \<le> n" using bit_length_bounds [OF n(1)] by simp
  then have "real (2 ^ (bit_length n - 1)) \<le> real n" by (simp only: of_nat_le_iff)
  then have "(2::real) ^ (bit_length n - 1) \<le> real n" by simp
  then have "2 ^ (bit_length n - 1) < 1 / \<bar>x\<bar>" using n(2) by linarith
  then have "\<bar>x\<bar> < 1 / 2 ^ (bit_length n - 1)"
    using ax(1) by (simp add: field_simps)
  moreover have "exponent x + 1 = - int (bit_length n - 1)"
    using False bl by (simp add: exponent_def n_def)
  then have "2 powi (exponent x + 1) = 1 / (2::real) ^ (bit_length n - 1)"
    by (simp add: power_int_minus field_simps)
  ultimately show ?thesis by simp
qed

lemma round_half_even_error: "\<bar>of_int (round_half_even x) - x\<bar> \<le> 1 / 2"
  unfolding round_half_even_def Let_def by (auto; linarith)

lemma double_error: "\<bar>double x - x\<bar> \<le> \<bar>x\<bar> * unit_roundoff"
proof (cases "x = 0")
  case True
  then show ?thesis by (simp add: double_def)
next
  case False
  define ulp :: real where "ulp = 2 powi (exponent x - 52)"
  have pos: "0 < ulp" by (simp add: ulp_def)
  have d: "double x = of_int (round_half_even (x / ulp)) * ulp"
    using False by (simp add: double_def ulp_def Let_def)
  have "double x - x = (of_int (round_half_even (x / ulp)) - x / ulp) * ulp"
    unfolding d using pos by (simp add: left_diff_distrib)
  then have "\<bar>double x - x\<bar> = \<bar>of_int (round_half_even (x / ulp)) - x / ulp\<bar> * ulp"
    using pos by (simp add: abs_mult)
  also have "\<dots> \<le> 1 / 2 * ulp"
    using round_half_even_error [of "x / ulp"] pos by (intro mult_right_mono) simp_all
  also have "\<dots> = 2 powi exponent x / 2 ^ 53"
    by (simp add: ulp_def power_int_diff)
  also have "\<dots> \<le> \<bar>x\<bar> / 2 ^ 53"
    using exponent_lower [OF False] by (simp add: divide_right_mono)
  finally show ?thesis by (simp add: unit_roundoff_def)
qed

lemma double_bounds:
  assumes "0 \<le> x"
  shows "x * (1 - unit_roundoff) \<le> double x" and "double x \<le> x * (1 + unit_roundoff)"
proof -
  have "\<bar>double x - x\<bar> \<le> x * unit_roundoff" using double_error [of x] assms by simp
  then have "x - x * unit_roundoff \<le> double x" and "double x \<le> x + x * unit_roundoff"
    by linarith+
  then show "x * (1 - unit_roundoff) \<le> double x" and "double x \<le> x * (1 + unit_roundoff)"
    by (simp_all add: algebra_simps)
qed

lemma unit_roundoff_bounds: "0 < unit_roundoff" "unit_roundoff < 1"
  by (simp_all add: unit_roundoff_def)

lemma double_nonneg: "0 \<le> x \<Longrightarrow> 0 \<le> double x"
proof -
  assume x: "0 \<le> x"
  have "0 \<le> x * (1 - unit_roundoff)" using x unit_roundoff_bounds by simp
  then show ?thesis using double_bounds(1) [OF x] by linarith
qed

lemma double_pos: "0 < x \<Longrightarrow> 0 < double x"
proof -
  assume x: "0 < x"
  have "0 < x * (1 - unit_roundoff)" using x unit_roundoff_bounds by simp
  then show ?thesis using double_bounds(1) [of x] x by linarith
qed

text \<open>
  A monthly output takes three roundings: the literal, the division by 12 and the
  product. Each moves a positive number by a factor between \<open>1 - unit_roundoff\<close> and
  \<open>1 + unit_roundoff\<close>.
\<close>

lemma entry_bounds:
  assumes a: "0 \<le> a" and t: "0 \<le> t"
  shows "a / 12 * t * (1 - unit_roundoff) ^ 3 \<le> fmul (fdiv a 12) (double t)"
    and "fmul (fdiv a 12) (double t) \<le> a / 12 * t * (1 + unit_roundoff) ^ 3"
proof -
  define u where "u = unit_roundoff"
  have u: "0 \<le> 1 - u" "0 \<le> 1 + u" using unit_roundoff_bounds by (simp_all add: u_def)
  define q where "q = fdiv a 12"
  define d where "d = double t"
  have a12: "0 \<le> a / 12" using a by simp
  have q: "a / 12 * (1 - u) \<le> q" "q \<le> a / 12 * (1 + u)" "0 \<le> q"
    unfolding q_def fdiv_def u_def
    by (rule double_bounds(1) [OF a12], rule double_bounds(2) [OF a12],
        rule double_nonneg [OF a12])
  have d: "t * (1 - u) \<le> d" "d \<le> t * (1 + u)" "0 \<le> d"
    unfolding d_def u_def
    by (rule double_bounds(1) [OF t], rule double_bounds(2) [OF t], rule double_nonneg [OF t])
  have qd: "0 \<le> q * d" using q(3) d(3) by simp
  have e: "q * d * (1 - u) \<le> fmul q d" "fmul q d \<le> q * d * (1 + u)"
    unfolding fmul_def u_def
    by (rule double_bounds(1) [OF qd], rule double_bounds(2) [OF qd])
  have "a / 12 * t * (1 - u) ^ 3 = a / 12 * (1 - u) * (t * (1 - u)) * (1 - u)"
    by (simp add: power3_eq_cube)
  also have "\<dots> \<le> q * d * (1 - u)"
  proof (rule mult_right_mono [OF _ u(1)])
    show "a / 12 * (1 - u) * (t * (1 - u)) \<le> q * d"
      using t u by (intro mult_mono [OF q(1) d(1) q(3)]) simp
  qed
  also note e(1)
  finally have lo: "a / 12 * t * (1 - u) ^ 3 \<le> fmul q d" .
  note e(2)
  also have "q * d * (1 + u) \<le> a / 12 * (1 + u) * (t * (1 + u)) * (1 + u)"
  proof (rule mult_right_mono [OF _ u(2)])
    show "q * d \<le> a / 12 * (1 + u) * (t * (1 + u))"
      using a12 u by (intro mult_mono [OF q(2) d(2) _ d(3)]) simp
  qed
  also have "\<dots> = a / 12 * t * (1 + u) ^ 3"
    by (simp add: power3_eq_cube)
  finally have hi: "fmul q d \<le> a / 12 * t * (1 + u) ^ 3" .
  from lo hi show "a / 12 * t * (1 - unit_roundoff) ^ 3 \<le> fmul (fdiv a 12) (double t)"
    and "fmul (fdiv a 12) (double t) \<le> a / 12 * t * (1 + unit_roundoff) ^ 3"
    by (simp_all add: q_def d_def u_def)
qed

lemma monthly_sum_bounds:
  assumes a: "0 \<le> a" and ts: "\<forall>t\<in>set ts. 0 \<le> t"
  shows "a / 12 * sum_list ts * (1 - unit_roundoff) ^ 3 \<le>
           sum_list (map (\<lambda>var. fmul (fdiv a 12) var) (map double ts))"
    and "sum_list (map (\<lambda>var. fmul (fdiv a 12) var) (map double ts)) \<le>
           a / 12 * sum_list ts * (1 + unit_roundoff) ^ 3"
  using ts
proof (induction ts)
  case Nil
  {
    case 1
    show ?case by simp
  next
    case 2
    show ?case by simp
  }
next
  case (Cons t ts)
  {
    case 1
    then have "0 \<le> t" and "\<forall>t\<in>set ts. 0 \<le> t" by simp_all
    then show ?case
      using entry_bounds(1) [OF a, of t] Cons.IH(1) by (simp add: algebra_simps)
  next
    case 2
    then have "0 \<le> t" and "\<forall>t\<in>set ts. 0 \<le> t" by simp_all
    then show ?case
      using entry_bounds(2) [OF a, of t] Cons.IH(2) by (simp add: algebra_simps)
  }
qed

lemma annual_output_double_pos:
  assumes "valid_input i"
  shows "0 < annual_output_double i"
proof -
  have "0 < fmul (rooftopAreaM2 i) (irradianceKwhPerM2PerDay i)"
    using assms by (simp add: fmul_def double_pos valid_input_def)
  then have "0 < fmul (fmul (rooftopAreaM2 i) (irradianceKwhPerM2PerDay i)) 365"
    by (simp add: fmul_def double_pos)
  moreover have "0 < performance_ratio_double i"
    using assms by (simp add: performance_ratio_double_def fdiv_def double_pos valid_input_def)
  ultimately have
    "0 < fmul (fmul (fmul (rooftopAreaM2 i) (irradianceKwhPerM2PerDay i)) 365)
       (performance_ratio_double i)"
    by (simp add: fmul_def double_pos)
  moreover have "0 < fdiv (panelEfficiencyPct i) 20"
    using assms by (simp add: fdiv_def double_pos valid_input_def)
  ultimately show ?thesis by (simp add: annual_output_double_def fmul_def double_pos)
qed

lemmas double_eval = double_def Let_def exponent_def bit_length_numeral round_half_even_def
  power_int_minus

lemma seasonal_variation_double_values:
  "seasonal_variation_double =
     [3602879701896397 / 4503599627370496, 8106479329266893 / 9007199254740992,
      2476979795053773 / 2251799813685248, 5404319552844595 / 4503599627370496,
      5854679515581645 / 4503599627370496, 5404319552844595 / 4503599627370496,
      2476979795053773 / 2251799813685248, 2476979795053773 / 2251799813685248,
      1, 8106479329266893 / 9007199254740992,
      3602879701896397 / 4503599627370496, 3152519739159347 / 4503599627370496]"
  by (simp add: seasonal_variation_double_def seasonal_variation_def double_eval)

lemma scenario_3_valid: "valid_input scenario_3"
  by (simp add: valid_input_def scenario_3_def)

lemma scenario_3_annual_output: "annual_output_double scenario_3 = 9636"
proof -
  have fields: "rooftopAreaM2 scenario_3 = 10" "irradianceKwhPerM2PerDay scenario_3 = 3"
    "panelEfficiencyPct scenario_3 = 22"
    by (simp_all add: scenario_3_def)
  have ratio: "performance_ratio_double scenario_3 = 3602879701896397 / 4503599627370496"
    by (simp add: performance_ratio_double_def scenario_3_def fdiv_def double_eval)
  have area: "fmul (fmul (fmul 10 3) 365) (3602879701896397 / 4503599627370496) = 8760"
    by (simp add: fmul_def double_eval)
  have efficiency: "fdiv 22 20 = 2476979795053773 / 2251799813685248"
    by (simp add: fdiv_def double_eval)
  have "fmul 8760 (2476979795053773 / 2251799813685248) = 9636"
    by (simp add: fmul_def double_eval)
  then show ?thesis
    by (simp only: annual_output_double_def fields ratio area efficiency)
qed

lemma scenario_3_monthly_output:
  "monthly_output_double scenario_3 =
     [1412652539366605 / 2199023255552, 3178468213574861 / 4398046511104,
      7769588966516327 / 8796093022208, 2118978809049907 / 2199023255552,
      2295560376470733 / 2199023255552, 2118978809049907 / 2199023255552,
      7769588966516327 / 8796093022208, 7769588966516327 / 8796093022208,
      803, 3178468213574861 / 4398046511104,
      1412652539366605 / 2199023255552, 1236070971945779 / 2199023255552]"
proof -
  have q: "fdiv 9636 12 = 803" by (simp add: fdiv_def double_eval)
  have m: "fmul 803 (3602879701896397 / 4503599627370496) = 1412652539366605 / 2199023255552"
    "fmul 803 (8106479329266893 / 9007199254740992) = 3178468213574861 / 4398046511104"
    "fmul 803 (2476979795053773 / 2251799813685248) = 7769588966516327 / 8796093022208"
    "fmul 803 (5404319552844595 / 4503599627370496) = 2118978809049907 / 2199023255552"
    "fmul 803 (5854679515581645 / 4503599627370496) = 2295560376470733 / 2199023255552"
    "fmul 803 1 = 803"
    "fmul 803 (3152519739159347 / 4503599627370496) = 1236070971945779 / 2199023255552"
    by (simp_all add: fmul_def double_eval)
  show ?thesis
    by (simp only: monthly_output_double_def scenario_3_annual_output q
        seasonal_variation_double_values list.map m)
qed

section \<open>The two scenarios, evaluated\<close>

lemma scenario_1_valid: "valid_input scenario_1"
  by (simp add: valid_input_def scenario_1_def)

lemma scenario_1_result:
  "estimate scenario_1 =
     Inr \<lparr>performanceRatio = 0.85, annualOutputKwh = 170637.5, annualSavings = 1109143.75,
          totalSystemCost = 11091437.5, netAnnualSavings = 1105143.75,
          paybackYears = 1774630 / 176823, co2ReductionKg = 139922.75,
          monthlyOutputKwh =
            [68255 / 6, 204765 / 16, 750805 / 48, 68255 / 4, 887315 / 48, 68255 / 4,
             750805 / 48, 750805 / 48, 341275 / 24, 204765 / 16, 68255 / 6, 477785 / 48],
          cumulativeSavingsByYear =
            [- 9986293.75, - 8881150, - 7776006.25, - 6670862.5, - 5565718.75, - 4460575,
             - 3355431.25, - 2250287.5, - 1145143.75, - 40000, 1065143.75, 2170287.5,
             3275431.25, 4380575]\<rparr>"
  by (simp add: estimate_def estimate_from_def calculation_block_def potential_score_def
      truediv_def Let_def widgets_def fresh_def scenario_1_def monthly_output_def seasonal_variation_def
      cumulative_savings_def years_def py_range_def py_int_def upto_from_1)

lemma scenario_2_result:
  "estimate scenario_2 =
     Inr \<lparr>performanceRatio = 0.85, annualOutputKwh = 170637.5, annualSavings = 1706.375,
          totalSystemCost = 11091437.5, netAnnualSavings = - 2293.625,
          paybackYears = 0, co2ReductionKg = 139922.75,
          monthlyOutputKwh =
            [68255 / 6, 204765 / 16, 750805 / 48, 68255 / 4, 887315 / 48, 68255 / 4,
             750805 / 48, 750805 / 48, 341275 / 24, 204765 / 16, 68255 / 6, 477785 / 48],
          cumulativeSavingsByYear =
            [- 11093731.125, - 11096024.75, - 11098318.375, - 11100612]\<rparr>"
  by (simp add: estimate_def estimate_from_def calculation_block_def potential_score_def
      truediv_def Let_def widgets_def fresh_def scenario_1_def scenario_2_def monthly_output_def seasonal_variation_def
      cumulative_savings_def years_def py_range_def py_int_def upto_from_1)

section \<open>The claims\<close>

text \<open>
  Claim C1. For every input within the ranges the run returns a result whose performance
  ratio is \<open>(100 - systemLossesPct) / 100\<close> and whose annual output is
  \<open>rooftopAreaM2 * irradianceKwhPerM2PerDay * 365 * performanceRatio *
  (panelEfficiencyPct / 20)\<close>.
\<close>

theorem estimate_ratio_and_output:
  "valid_input i \<Longrightarrow>
   \<exists>r. estimate i = Inr r \<and>
       performanceRatio r = (100 - systemLossesPct i) / 100 \<and>
       annualOutputKwh r =
         rooftopAreaM2 i * irradianceKwhPerM2PerDay i * 365 * performanceRatio r *
         (panelEfficiencyPct i / 20)"
proof -
  assume v: "valid_input i"
  obtain r where r: "estimate i = Inr r"
    and pr: "performanceRatio r = (100 - systemLossesPct i) / 100"
    and ao: "annualOutputKwh r =
       rooftopAreaM2 i * irradianceKwhPerM2PerDay i * 365 * ((100 - systemLossesPct i) / 100) *
       (panelEfficiencyPct i / 20)"
    using estimate_returns [OF valid_area [OF v]] by blast
  from ao have "annualOutputKwh r =
       rooftopAreaM2 i * irradianceKwhPerM2PerDay i * 365 * performanceRatio r *
       (panelEfficiencyPct i / 20)"
    by (simp only: pr)
  with r pr show ?thesis by blast
qed

text \<open>
  At scenario 1 the ratio is 0.85 and the output 170637.5 kWh.
\<close>

theorem estimate_ratio_and_output_witness:
  "valid_input scenario_1 \<and>
   (\<exists>r. estimate scenario_1 = Inr r \<and> performanceRatio r = 0.85 \<and>
        annualOutputKwh r = 170637.5)"
  using estimate_ratio_and_output [OF scenario_1_valid] scenario_1_valid
  by (auto simp add: scenario_1_def)

text \<open>
  Claim C2. A run on an input whose area is not zero, so on every input within the
  ranges, returns a result: line 142 does not divide by zero. Cost and net savings are
  the formulas of lines 138-141 in the inputs, and the payback is their quotient when
  the net savings are positive and exactly 0 when they are not. Within the ranges the
  net savings are always positive, so there the payback is the quotient; the second
  case takes an input outside the ranges, and the statement covers both.
\<close>

theorem payback_sentinel:
  "rooftopAreaM2 i \<noteq> 0 \<Longrightarrow>
   \<exists>r. estimate i = Inr r \<and>
       totalSystemCost r =
         rooftopAreaM2 i * irradianceKwhPerM2PerDay i * 365 * ((100 - systemLossesPct i) / 100) *
         (panelEfficiencyPct i / 20) / 1000 * installationCostPerKw i \<and>
       netAnnualSavings r =
         rooftopAreaM2 i * irradianceKwhPerM2PerDay i * 365 * ((100 - systemLossesPct i) / 100) *
         (panelEfficiencyPct i / 20) * tariffPerKwh i - annualMaintenanceCost i \<and>
       (0 < netAnnualSavings r \<longrightarrow>
          paybackYears r = totalSystemCost r / netAnnualSavings r) \<and>
       (netAnnualSavings r \<le> 0 \<longrightarrow> paybackYears r = 0) \<and>
       (valid_input i \<longrightarrow> 0 < netAnnualSavings r)"
proof -
  assume "rooftopAreaM2 i \<noteq> 0"
  then obtain r where r: "estimate i = Inr r"
    and ao: "annualOutputKwh r =
       rooftopAreaM2 i * irradianceKwhPerM2PerDay i * 365 * ((100 - systemLossesPct i) / 100) *
       (panelEfficiencyPct i / 20)"
    and sav: "annualSavings r = annualOutputKwh r * tariffPerKwh i"
    and cost: "totalSystemCost r = annualOutputKwh r / 1000 * installationCostPerKw i"
    and net: "netAnnualSavings r = annualSavings r - annualMaintenanceCost i"
    and pay: "paybackYears r =
       (if 0 < netAnnualSavings r then totalSystemCost r / netAnnualSavings r else 0)"
    using estimate_returns [of i] by blast
  have "totalSystemCost r =
         rooftopAreaM2 i * irradianceKwhPerM2PerDay i * 365 * ((100 - systemLossesPct i) / 100) *
         (panelEfficiencyPct i / 20) / 1000 * installationCostPerKw i"
    by (simp only: cost ao)
  moreover have "netAnnualSavings r =
         rooftopAreaM2 i * irradianceKwhPerM2PerDay i * 365 * ((100 - systemLossesPct i) / 100) *
         (panelEfficiencyPct i / 20) * tariffPerKwh i - annualMaintenanceCost i"
    by (simp only: net sav ao)
  moreover have "0 < netAnnualSavings r \<longrightarrow>
      paybackYears r = totalSystemCost r / netAnnualSavings r"
    using pay by simp
  moreover have "netAnnualSavings r \<le> 0 \<longrightarrow> paybackYears r = 0"
    using pay by simp
  moreover have "valid_input i \<longrightarrow> 0 < netAnnualSavings r"
    using valid_run(2) [OF _ r] by blast
  ultimately show ?thesis using r by blast
qed

text \<open>
  Scenario 1, within the ranges, takes the first case: cost 11091437.5, net savings
  1105143.75, payback 1774630/176823, about 10.04 years. Scenario 2, with its tariff
  below the range, takes the second: net savings -2293.625, payback 0.
\<close>

theorem payback_sentinel_witness:
  "(valid_input scenario_1 \<and> rooftopAreaM2 scenario_1 \<noteq> 0 \<and>
    (\<exists>r. estimate scenario_1 = Inr r \<and> totalSystemCost r = 11091437.5 \<and>
         netAnnualSavings r = 1105143.75 \<and> 0 < netAnnualSavings r \<and>
         paybackYears r = 1774630 / 176823 \<and>
         paybackYears r = totalSystemCost r / netAnnualSavings r)) \<and>
   (rooftopAreaM2 scenario_2 \<noteq> 0 \<and>
    (\<exists>r. estimate scenario_2 = Inr r \<and> totalSystemCost r = 11091437.5 \<and>
         netAnnualSavings r = - 2293.625 \<and> netAnnualSavings r \<le> 0 \<and> paybackYears r = 0))"
proof -
  have a1: "rooftopAreaM2 scenario_1 \<noteq> 0" by (simp add: scenario_1_def)
  have a2: "rooftopAreaM2 scenario_2 \<noteq> 0" by (simp add: scenario_2_def scenario_1_def)
  show ?thesis
    using payback_sentinel [OF a1] payback_sentinel [OF a2] a1 a2 scenario_1_valid
    by (simp add: scenario_1_result scenario_2_result)
qed

text \<open>
  Claim C3. For every input within the ranges the list of cumulative savings has at
  least 5 entries. The net savings are positive there and the payback exceeds 2 years,
  so the list has \<open>floor(paybackYears) + 4\<close> entries, which is 6 or more. The case
  of non-positive net savings, which the claim mentions in particular, is met by no
  input within the ranges.
\<close>

theorem cumulative_savings_length:
  "valid_input i \<Longrightarrow>
   \<exists>r. estimate i = Inr r \<and>
       0 < netAnnualSavings r \<and>
       paybackYears r = totalSystemCost r / netAnnualSavings r \<and>
       2 < paybackYears r \<and>
       int (length (cumulativeSavingsByYear r)) = \<lfloor>paybackYears r\<rfloor> + 4 \<and>
       5 \<le> length (cumulativeSavingsByYear r)"
proof -
  assume v: "valid_input i"
  obtain r where r: "estimate i = Inr r"
    using estimate_returns [OF valid_area [OF v]] by blast
  note cs = cumulative_savings_valid [OF v r]
  have p: "2 < paybackYears r" using valid_run(6) [OF v r] .
  then have f: "2 \<le> \<lfloor>paybackYears r\<rfloor>" by (simp add: le_floor_iff)
  have len: "int (length (cumulativeSavingsByYear r)) = \<lfloor>paybackYears r\<rfloor> + 4"
    using f by (simp add: cs)
  then have "5 \<le> length (cumulativeSavingsByYear r)" using f by linarith
  with r len p valid_run(2) [OF v r] valid_run(4) [OF v r] show ?thesis by blast
qed

text \<open>
  Scenario 1 has net savings of 1105143.75, a payback of about 10.04 years and 14
  entries.
\<close>

theorem cumulative_savings_length_witness:
  "valid_input scenario_1 \<and>
   (\<exists>r. estimate scenario_1 = Inr r \<and> netAnnualSavings r = 1105143.75 \<and>
        paybackYears r = 1774630 / 176823 \<and> length (cumulativeSavingsByYear r) = 14 \<and>
        5 \<le> length (cumulativeSavingsByYear r))"
  using cumulative_savings_length [OF scenario_1_valid] scenario_1_valid
  by (simp add: scenario_1_result)

text \<open>
  Claim C4, as amended. At scenario 1 the run returns performance ratio 0.85, annual
  output 170637.5, annual savings 1109143.75, total system cost 11091437.5, net annual
  savings 1105143.75, a payback of 10.04 to two decimals and a CO2 reduction of
  139922.75.
\<close>

theorem scenario_1_values:
  "\<exists>r. estimate scenario_1 = Inr r \<and>
       performanceRatio r = 0.85 \<and>
       annualOutputKwh r = 170637.5 \<and>
       annualSavings r = 1109143.75 \<and>
       totalSystemCost r = 11091437.5 \<and>
       netAnnualSavings r = 1105143.75 \<and>
       approx (paybackYears r) 10.04 \<and>
       co2ReductionKg r = 139922.75"
  by (simp add: scenario_1_result approx_def)

text \<open>
  Claim C4 as the spec states it gives annual savings of about 1108643.75 and net
  annual savings of about 1104643.75. Both are 500 below what the run computes:
  170637.5 * 6.5 is 1109143.75.
\<close>

theorem scenario_1_savings_counterexample:
  "map_sum id annualSavings (estimate scenario_1) = Inr 1109143.75 \<and>
   \<not> approx 1109143.75 1108643.75 \<and>
   map_sum id netAnnualSavings (estimate scenario_1) = Inr 1105143.75 \<and>
   \<not> approx 1105143.75 1104643.75"
  by (simp add: scenario_1_result approx_def)

text \<open>
  Claim C5. For every input within the ranges the list of cumulative savings has
  exactly \<open>floor(paybackYears) + 4\<close> entries, and the entry of year \<open>year\<close>, counted
  from 1, is \<open>year * netAnnualSavings - totalSystemCost\<close>.
\<close>

theorem cumulative_savings_entries:
  "valid_input i \<Longrightarrow>
   \<exists>r. estimate i = Inr r \<and>
       int (length (cumulativeSavingsByYear r)) = \<lfloor>paybackYears r\<rfloor> + 4 \<and>
       (\<forall>year\<in>{1..\<lfloor>paybackYears r\<rfloor> + 4}.
          cumulativeSavingsByYear r ! nat (year - 1) =
            of_int year * netAnnualSavings r - totalSystemCost r)"
proof -
  assume v: "valid_input i"
  obtain r where r: "estimate i = Inr r"
    using estimate_returns [OF valid_area [OF v]] by blast
  note cs = cumulative_savings_valid [OF v r]
  have p: "1 \<le> \<lfloor>paybackYears r\<rfloor>" using valid_years(2) [OF v r] .
  have len: "int (length (cumulativeSavingsByYear r)) = \<lfloor>paybackYears r\<rfloor> + 4"
    using p by (simp add: cs)
  have "cumulativeSavingsByYear r ! nat (year - 1) =
          of_int year * netAnnualSavings r - totalSystemCost r"
    if "year \<in> {1..\<lfloor>paybackYears r\<rfloor> + 4}" for year
  proof -
    from that have y: "1 \<le> year" "year \<le> \<lfloor>paybackYears r\<rfloor> + 4" by simp_all
    then have "nat (year - 1) < length [1..\<lfloor>paybackYears r\<rfloor> + 4]" by simp
    moreover have "[1..\<lfloor>paybackYears r\<rfloor> + 4] ! nat (year - 1) = year"
      using y by simp
    ultimately show ?thesis by (simp add: cs)
  qed
  with r len show ?thesis by blast
qed

text \<open>
  Scenario 1 has a payback of 10.04 years and 14 entries.
\<close>

theorem cumulative_savings_entries_witness:
  "valid_input scenario_1 \<and>
   (\<exists>r. estimate scenario_1 = Inr r \<and> length (cumulativeSavingsByYear r) = 14 \<and>
        cumulativeSavingsByYear r ! 0 = 1 * netAnnualSavings r - totalSystemCost r \<and>
        cumulativeSavingsByYear r ! 13 = 14 * netAnnualSavings r - totalSystemCost r)"
  using cumulative_savings_entries [OF scenario_1_valid] scenario_1_valid
  by (simp add: scenario_1_result)

text \<open>
  Claim C6. Take an input within the ranges and raise its area, its irradiance or its
  panel efficiency to a larger value that is still within the ranges, the other six
  fields unchanged: the annual output of the run grows strictly.
\<close>

theorem annual_output_monotone:
  assumes "valid_input i"
  shows
    "(valid_input (i\<lparr>rooftopAreaM2 := a\<rparr>) \<and> rooftopAreaM2 i < a \<longrightarrow>
        (\<exists>r r'. estimate i = Inr r \<and> estimate (i\<lparr>rooftopAreaM2 := a\<rparr>) = Inr r' \<and>
           annualOutputKwh r < annualOutputKwh r')) \<and>
     (valid_input (i\<lparr>irradianceKwhPerM2PerDay := b\<rparr>) \<and> irradianceKwhPerM2PerDay i < b \<longrightarrow>
        (\<exists>r r'. estimate i = Inr r \<and>
           estimate (i\<lparr>irradianceKwhPerM2PerDay := b\<rparr>) = Inr r' \<and>
           annualOutputKwh r < annualOutputKwh r')) \<and>
     (valid_input (i\<lparr>panelEfficiencyPct := c\<rparr>) \<and> panelEfficiencyPct i < c \<longrightarrow>
        (\<exists>r r'. estimate i = Inr r \<and> estimate (i\<lparr>panelEfficiencyPct := c\<rparr>) = Inr r' \<and>
           annualOutputKwh r < annualOutputKwh r'))"
proof (intro conjI impI)
  assume "valid_input (i\<lparr>rooftopAreaM2 := a\<rparr>) \<and> rooftopAreaM2 i < a"
  then show "\<exists>r r'. estimate i = Inr r \<and> estimate (i\<lparr>rooftopAreaM2 := a\<rparr>) = Inr r' \<and>
           annualOutputKwh r < annualOutputKwh r'"
    using assms by (intro output_increases) simp_all
next
  assume "valid_input (i\<lparr>irradianceKwhPerM2PerDay := b\<rparr>) \<and> irradianceKwhPerM2PerDay i < b"
  then show "\<exists>r r'. estimate i = Inr r \<and>
           estimate (i\<lparr>irradianceKwhPerM2PerDay := b\<rparr>) = Inr r' \<and>
           annualOutputKwh r < annualOutputKwh r'"
    using assms by (intro output_increases) simp_all
next
  assume "valid_input (i\<lparr>panelEfficiencyPct := c\<rparr>) \<and> panelEfficiencyPct i < c"
  then show "\<exists>r r'. estimate i = Inr r \<and> estimate (i\<lparr>panelEfficiencyPct := c\<rparr>) = Inr r' \<and>
           annualOutputKwh r < annualOutputKwh r'"
    using assms by (intro output_increases) simp_all
qed

text \<open>
  From scenario 1: area 100 to 200, irradiance 5.5 to 6, efficiency 20 to 22.
\<close>

theorem annual_output_monotone_witness:
  "valid_input scenario_1 \<and>
   (valid_input (scenario_1\<lparr>rooftopAreaM2 := 200\<rparr>) \<and> rooftopAreaM2 scenario_1 < 200) \<and>
   (\<exists>r r'. estimate scenario_1 = Inr r \<and>
      estimate (scenario_1\<lparr>rooftopAreaM2 := 200\<rparr>) = Inr r' \<and>
      annualOutputKwh r < annualOutputKwh r') \<and>
   (valid_input (scenario_1\<lparr>irradianceKwhPerM2PerDay := 6\<rparr>) \<and>
      irradianceKwhPerM2PerDay scenario_1 < 6) \<and>
   (\<exists>r r'. estimate scenario_1 = Inr r \<and>
      estimate (scenario_1\<lparr>irradianceKwhPerM2PerDay := 6\<rparr>) = Inr r' \<and>
      annualOutputKwh r < annualOutputKwh r') \<and>
   (valid_input (scenario_1\<lparr>panelEfficiencyPct := 22\<rparr>) \<and> panelEfficiencyPct scenario_1 < 22) \<and>
   (\<exists>r r'. estimate scenario_1 = Inr r \<and>
      estimate (scenario_1\<lparr>panelEfficiencyPct := 22\<rparr>) = Inr r' \<and>
      annualOutputKwh r < annualOutputKwh r')"
proof -
  have area: "valid_input (scenario_1\<lparr>rooftopAreaM2 := 200\<rparr>) \<and> rooftopAreaM2 scenario_1 < 200"
    and irradiance: "valid_input (scenario_1\<lparr>irradianceKwhPerM2PerDay := 6\<rparr>) \<and>
      irradianceKwhPerM2PerDay scenario_1 < 6"
    and efficiency: "valid_input (scenario_1\<lparr>panelEfficiencyPct := 22\<rparr>) \<and>
      panelEfficiencyPct scenario_1 < 22"
    by (simp_all add: valid_input_def scenario_1_def)
  show ?thesis
    using annual_output_monotone [OF scenario_1_valid, of 200 6 22]
      area irradiance efficiency scenario_1_valid
    by blast
qed

text \<open>
  Claim C7, as amended. In the doubles of the program, for every input within the
  ranges: there are 12 monthly outputs; the entry of month \<open>k\<close> is the rounded product
  of the rounded \<open>annual_output/12\<close> and the double of entry \<open>k\<close> of the table
  0.8, 0.9, 1.1, 1.2, 1.3, 1.2, 1.1, 1.1, 1.0, 0.9, 0.8, 0.7; and the sum of the twelve
  entries is the annual output times a twelfth of the sum of the table up to rounding,
  within the fraction \<open>4 * unit_roundoff\<close>, that is \<open>2^-51\<close>, of that product. The sums
  and the product of the comparison are exact: they are not computed by the program.
\<close>

theorem monthly_output_entries:
  "valid_input i \<Longrightarrow>
   0 < annual_output_double i \<and>
   length (monthly_output_double i) = 12 \<and>
   (\<forall>k<12. monthly_output_double i ! k =
      fmul (fdiv (annual_output_double i) 12) (double ([0.8, 0.9, 1.1, 1.2, 1.3, 1.2, 1.1, 1.1, 1.0, 0.9, 0.8, 0.7] ! k))) \<and>
   \<bar>sum_list (monthly_output_double i) -
      annual_output_double i * (sum_list [0.8, 0.9, 1.1, 1.2, 1.3, 1.2, 1.1, 1.1, 1.0, 0.9, 0.8, 0.7] / 12)\<bar>
     \<le> 4 * unit_roundoff * (annual_output_double i * (sum_list [0.8, 0.9, 1.1, 1.2, 1.3, 1.2, 1.1, 1.1, 1.0, 0.9, 0.8, 0.7] / 12))"
proof -
  assume v: "valid_input i"
  define a where "a = annual_output_double i"
  define u where "u = unit_roundoff"
  have pos: "0 < a" unfolding a_def using v by (rule annual_output_double_pos)
  have table: "seasonal_variation = [0.8, 0.9, 1.1, 1.2, 1.3, 1.2, 1.1, 1.1, 1.0, 0.9, 0.8, 0.7]"
    by (simp add: seasonal_variation_def)
  have m: "monthly_output_double i =
      map (\<lambda>var. fmul (fdiv a 12) var) (map double seasonal_variation)"
    by (simp only: monthly_output_double_def seasonal_variation_double_def a_def)
  have len: "length (monthly_output_double i) = 12"
    by (simp add: m seasonal_variation_def)
  have nth: "\<forall>k<12. monthly_output_double i ! k =
      fmul (fdiv a 12) (double (seasonal_variation ! k))"
  proof (intro allI impI)
    fix k :: nat
    assume "k < 12"
    then have "k < length seasonal_variation" by (simp add: seasonal_variation_def)
    then show "monthly_output_double i ! k =
        fmul (fdiv a 12) (double (seasonal_variation ! k))"
      unfolding m by (simp only: nth_map length_map)
  qed
  have nonneg: "\<forall>t\<in>set seasonal_variation. 0 \<le> t"
    by (simp add: seasonal_variation_def)
  define A where "A = a * (sum_list seasonal_variation / 12)"
  have A: "0 \<le> A" "A = a / 12 * sum_list seasonal_variation"
    using pos by (simp_all add: A_def seasonal_variation_def)
  have lo: "A * (1 - u) ^ 3 \<le> sum_list (monthly_output_double i)"
    and hi: "sum_list (monthly_output_double i) \<le> A * (1 + u) ^ 3"
    unfolding m A(2) u_def using pos nonneg by (intro monthly_sum_bounds; simp)+
  have "1 - 4 * u \<le> (1 - u) ^ 3" and "(1 + u) ^ 3 \<le> 1 + 4 * u"
    by (simp_all add: u_def unit_roundoff_def power_divide)
  then have "A * (1 - 4 * u) \<le> A * (1 - u) ^ 3" and "A * (1 + u) ^ 3 \<le> A * (1 + 4 * u)"
    using A(1) by (simp_all add: mult_left_mono)
  with lo hi have "A * (1 - 4 * u) \<le> sum_list (monthly_output_double i)"
    and "sum_list (monthly_output_double i) \<le> A * (1 + 4 * u)"
    by linarith+
  then have "\<bar>sum_list (monthly_output_double i) - A\<bar> \<le> 4 * u * A"
    by (simp add: abs_le_iff algebra_simps)
  with pos len nth show ?thesis
    unfolding A_def a_def u_def table by blast
qed

text \<open>
  Scenario 3: the annual output is 9636, May is 1043.9 to the nearest double, and the
  twelve entries exceed 9636 * 12.1 / 12 = 9716.3 by 13/43980465111040.
\<close>

theorem monthly_output_entries_witness:
  "valid_input scenario_3 \<and>
   annual_output_double scenario_3 = 9636 \<and>
   length (monthly_output_double scenario_3) = 12 \<and>
   monthly_output_double scenario_3 ! 4 = fmul (fdiv 9636 12) (double 1.3) \<and>
   monthly_output_double scenario_3 ! 4 = 2295560376470733 / 2199023255552 \<and>
   \<bar>sum_list (monthly_output_double scenario_3) - 9636 * (sum_list [0.8, 0.9, 1.1, 1.2, 1.3, 1.2, 1.1, 1.1, 1.0, 0.9, 0.8, 0.7] / 12)\<bar>
     \<le> 4 * unit_roundoff * (9636 * (sum_list [0.8, 0.9, 1.1, 1.2, 1.3, 1.2, 1.1, 1.1, 1.0, 0.9, 0.8, 0.7] / 12))"
proof -
  note c = monthly_output_entries [OF scenario_3_valid, unfolded scenario_3_annual_output]
  from c have nth: "\<forall>k<12. monthly_output_double scenario_3 ! k =
      fmul (fdiv 9636 12) (double ([0.8, 0.9, 1.1, 1.2, 1.3, 1.2, 1.1, 1.1, 1.0, 0.9, 0.8, 0.7] ! k))"
    by blast
  have may: "monthly_output_double scenario_3 ! 4 = fmul (fdiv 9636 12) (double 1.3)"
    using nth [rule_format, of 4] by simp
  have "monthly_output_double scenario_3 ! 4 = 2295560376470733 / 2199023255552"
    by (simp add: scenario_3_monthly_output)
  with c may scenario_3_valid scenario_3_annual_output show ?thesis by blast
qed

text \<open>
  Claim C7 as the spec states it has the sum of the monthly outputs equal to the annual
  output times a twelfth of the sum of the table. At scenario 3 the program's twelve
  doubles add up, exactly, to 13/43980465111040 more than 9636 * 12.1 / 12, and to
  207/4503599627370496 more when the table is taken as its twelve doubles. Added from
  the left in doubles they give 9716.300000000001, while the product computed in
  doubles is 9716.3, the double below.
\<close>

theorem monthly_sum_counterexample:
  "valid_input scenario_3 \<and>
   annual_output_double scenario_3 = 9636 \<and>
   monthly_output_double scenario_3 =
     [1412652539366605 / 2199023255552, 3178468213574861 / 4398046511104,
      7769588966516327 / 8796093022208, 2118978809049907 / 2199023255552,
      2295560376470733 / 2199023255552, 2118978809049907 / 2199023255552,
      7769588966516327 / 8796093022208, 7769588966516327 / 8796093022208,
      803, 3178468213574861 / 4398046511104,
      1412652539366605 / 2199023255552, 1236070971945779 / 2199023255552] \<and>
   sum_list (monthly_output_double scenario_3) -
     annual_output_double scenario_3 * (sum_list [0.8, 0.9, 1.1, 1.2, 1.3, 1.2, 1.1, 1.1, 1.0, 0.9, 0.8, 0.7] / 12) = 13 / 43980465111040 \<and>
   sum_list (monthly_output_double scenario_3) -
     annual_output_double scenario_3 * (sum_list seasonal_variation_double / 12) =
     207 / 4503599627370496 \<and>
   sum_double (monthly_output_double scenario_3) = 5341592414479975 / 549755813888 \<and>
   fmul (annual_output_double scenario_3) (fdiv (sum_double seasonal_variation_double) 12) =
     5341592414479974 / 549755813888"
proof -
  have exact: "sum_list (monthly_output_double scenario_3) -
      annual_output_double scenario_3 * (sum_list [0.8, 0.9, 1.1, 1.2, 1.3, 1.2, 1.1, 1.1, 1.0, 0.9, 0.8, 0.7] / 12) = 13 / 43980465111040"
    by (simp add: scenario_3_monthly_output scenario_3_annual_output)
  have exact_double: "sum_list (monthly_output_double scenario_3) -
      annual_output_double scenario_3 * (sum_list seasonal_variation_double / 12) =
      207 / 4503599627370496"
    by (simp add: scenario_3_monthly_output scenario_3_annual_output
        seasonal_variation_double_values)
  have s: "fadd 0 (1412652539366605 / 2199023255552) = 1412652539366605 / 2199023255552"
    "fadd (1412652539366605 / 2199023255552) (3178468213574861 / 4398046511104) =
       6003773292308071 / 4398046511104"
    "fadd (6003773292308071 / 4398046511104) (7769588966516327 / 8796093022208) =
       4944283887783117 / 2199023255552"
    "fadd (4944283887783117 / 2199023255552) (2118978809049907 / 2199023255552) = 3212"
    "fadd 3212 (2295560376470733 / 2199023255552) = 2339705768325939 / 549755813888"
    "fadd (2339705768325939 / 549755813888) (2118978809049907 / 2199023255552) = 10439 / 2"
    "fadd (10439 / 2) (7769588966516327 / 8796093022208) = 6710099561991373 / 1099511627776"
    "fadd (6710099561991373 / 1099511627776) (7769588966516327 / 8796093022208) =
       3840649091402957 / 549755813888"
    "fadd (3840649091402957 / 549755813888) 803 = 4282103009955021 / 549755813888"
    "fadd (4282103009955021 / 549755813888) (3178468213574861 / 4398046511104) =
       4679411536651879 / 549755813888"
    "fadd (4679411536651879 / 549755813888) (1412652539366605 / 2199023255552) =
       2516287335746765 / 274877906944"
    "fadd (2516287335746765 / 274877906944) (1236070971945779 / 2199023255552) =
       5341592414479975 / 549755813888"
    by (simp_all add: fadd_def double_eval)
  have summed: "sum_double (monthly_output_double scenario_3) = 5341592414479975 / 549755813888"
    by (simp only: sum_double_def scenario_3_monthly_output foldl.simps s)
  have t: "fadd 0 (3602879701896397 / 4503599627370496) = 3602879701896397 / 4503599627370496"
    "fadd (3602879701896397 / 4503599627370496) (8106479329266893 / 9007199254740992) =
       1914029841632461 / 1125899906842624"
    "fadd (1914029841632461 / 1125899906842624) (2476979795053773 / 2251799813685248) =
       6305039478318695 / 2251799813685248"
    "fadd (6305039478318695 / 2251799813685248) (5404319552844595 / 4503599627370496) = 4"
    "fadd 4 (5854679515581645 / 4503599627370496) = 5967269506265907 / 1125899906842624"
    "fadd (5967269506265907 / 1125899906842624) (5404319552844595 / 4503599627370496) = 13 / 2"
    "fadd (13 / 2) (2476979795053773 / 2251799813685248) = 4278419646001971 / 562949953421312"
    "fadd (4278419646001971 / 562949953421312) (2476979795053773 / 2251799813685248) =
       2448832297382707 / 281474976710656"
    "fadd (2448832297382707 / 281474976710656) 1 = 2730307274093363 / 281474976710656"
    "fadd (2730307274093363 / 281474976710656) (8106479329266893 / 9007199254740992) =
       5967269506265907 / 562949953421312"
    "fadd (5967269506265907 / 562949953421312) (3602879701896397 / 4503599627370496) =
       6417629469002957 / 562949953421312"
    "fadd (6417629469002957 / 562949953421312) (3152519739159347 / 4503599627370496) =
       6811694436397875 / 562949953421312"
    by (simp_all add: fadd_def double_eval)
  have table_sum: "sum_double seasonal_variation_double = 6811694436397875 / 562949953421312"
    by (simp only: sum_double_def seasonal_variation_double_values foldl.simps t)
  have twelfth: "fdiv (6811694436397875 / 562949953421312) 12 =
      2270564812132625 / 2251799813685248"
    by (simp add: fdiv_def double_eval)
  have "fmul 9636 (2270564812132625 / 2251799813685248) = 5341592414479974 / 549755813888"
    by (simp add: fmul_def double_eval)
  then have product: "fmul (annual_output_double scenario_3)
      (fdiv (sum_double seasonal_variation_double) 12) = 5341592414479974 / 549755813888"
    by (simp only: scenario_3_annual_output table_sum twelfth)
  from scenario_3_valid scenario_3_annual_output scenario_3_monthly_output exact exact_double
    summed product
  show ?thesis by blast
qed

text \<open>
  Claim C8. The result of a run is the same whatever the variables held before it:
  the block assigns each of its seven variables before it reads it, and the charts read
  nothing else. Two runs on the same input therefore return the same result in every
  field, in whatever order runs are made.
\<close>

theorem estimate_deterministic: "estimate_from h i = estimate_from h' i"
  by (simp add: estimate_from_def calculation_block_def potential_score_def truediv_def Let_def
        widgets_def monthly_output_def cumulative_savings_def years_def)

text \<open>
  A run of scenario 1 over stale values of two variables, against a first run.
\<close>

theorem estimate_deterministic_witness:
  "estimate_from (fresh\<lparr>annual_output := - 1, payback := 99\<rparr>) scenario_1 =
   estimate_from fresh scenario_1"
  using estimate_deterministic [of "fresh\<lparr>annual_output := - 1, payback := 99\<rparr>" scenario_1 fresh]
  by simp

text \<open>
  Claim C9. For every input within the ranges the gauge shows exactly 100: the output
  per square metre is at least 615.9375, far above the 10 at which
  \<open>min(100, (annual_output/area) * 10)\<close> saturates.
\<close>

theorem potential_score_saturates: "valid_input i \<Longrightarrow> score i = Inr 100"
proof -
  assume v: "valid_input i"
  obtain r where r: "estimate i = Inr r"
    using estimate_returns [OF valid_area [OF v]] by blast
  have a: "0 < rooftopAreaM2 i" using v by (simp add: valid_input_def)
  have "rooftopAreaM2 i * 10 \<le> rooftopAreaM2 i * (9855 / 16)" using a by simp
  also have "\<dots> \<le> annualOutputKwh r" using valid_run(1) [OF v r] .
  finally have le: "rooftopAreaM2 i * 10 \<le> annualOutputKwh r" .
  have big: "100 \<le> annualOutputKwh r / rooftopAreaM2 i * 10"
    using a le by (simp add: field_simps)
  obtain e where e: "calculation_block (widgets i fresh) = Inr e"
    and ar: "area e = area (widgets i fresh)"
    using calculation_block_returns [of "widgets i fresh"] by blast
  have "annual_output e = annualOutputKwh r"
    using r e by (auto simp add: estimate_def estimate_from_def split: sum.splits)
  then show ?thesis
    using big a e ar
    by (simp add: score_def score_from_def potential_score_def truediv_def widgets_assigns)
qed

text \<open>
  Scenario 1.
\<close>

theorem potential_score_saturates_witness:
  "valid_input scenario_1 \<and> score scenario_1 = Inr 100"
  using potential_score_saturates [OF scenario_1_valid] scenario_1_valid by simp

text \<open>
  Claim C10. For every input within the ranges the net savings are positive, the list
  of cumulative savings is not empty and its last entry is strictly positive: the last
  year \<open>floor(paybackYears) + 4\<close> lies beyond the payback.
\<close>

theorem final_saving_positive:
  "valid_input i \<Longrightarrow>
   \<exists>r. estimate i = Inr r \<and> 0 < netAnnualSavings r \<and>
       cumulativeSavingsByYear r \<noteq> [] \<and> 0 < last (cumulativeSavingsByYear r)"
proof -
  assume v: "valid_input i"
  obtain r where r: "estimate i = Inr r"
    using estimate_returns [OF valid_area [OF v]] by blast
  note cs = cumulative_savings_valid [OF v r]
  have p: "1 \<le> \<lfloor>paybackYears r\<rfloor>" using valid_years(2) [OF v r] .
  have net: "0 < netAnnualSavings r" using valid_run(2) [OF v r] .
  have pay: "paybackYears r = totalSystemCost r / netAnnualSavings r"
    using valid_run(4) [OF v r] .
  have le: "1 \<le> \<lfloor>paybackYears r\<rfloor> + 4" using p by linarith
  have ne: "[1..\<lfloor>paybackYears r\<rfloor> + 4] \<noteq> []"
    using le unfolding upto_Nil by linarith
  have "last [1..\<lfloor>paybackYears r\<rfloor> + 4] = \<lfloor>paybackYears r\<rfloor> + 4"
    by (simp only: upto_rec2 [OF le] last_snoc)
  then have l: "last (cumulativeSavingsByYear r) =
      of_int (\<lfloor>paybackYears r\<rfloor> + 4) * netAnnualSavings r - totalSystemCost r"
    using ne by (simp add: cs last_map)
  have "paybackYears r < of_int (\<lfloor>paybackYears r\<rfloor> + 4)" by linarith
  then have "paybackYears r * netAnnualSavings r <
      of_int (\<lfloor>paybackYears r\<rfloor> + 4) * netAnnualSavings r"
    using net by (rule mult_strict_right_mono)
  moreover have "paybackYears r * netAnnualSavings r = totalSystemCost r"
    using net by (simp add: pay)
  ultimately have "0 < last (cumulativeSavingsByYear r)" unfolding l by linarith
  with r net ne show ?thesis by (auto simp add: cs)
qed

text \<open>
  Scenario 1 ends at year 14 with 4380575.
\<close>

theorem final_saving_positive_witness:
  "valid_input scenario_1 \<and>
   (\<exists>r. estimate scenario_1 = Inr r \<and> 0 < netAnnualSavings r \<and>
        last (cumulativeSavingsByYear r) = 4380575)"
  using final_saving_positive [OF scenario_1_valid] scenario_1_valid
  by (simp add: scenario_1_result)

end
